theory Spec2Isabelle
  imports Complex_Main "HOL-Library.Sublist"
begin

section \<open>Python strings\<close>

text \<open>
  Class names are Python \<open>str\<close> values; the model names of the detector are ASCII, and
  the embedding gives \<open>str.lower\<close> and \<open>str.title\<close> their ASCII behaviour: the 26
  letters change case, every other character is left alone and is not cased.
\<close>

definition upper_letters :: string where
  "upper_letters = ''ABCDEFGHIJKLMNOPQRSTUVWXYZ''"

definition lower_letters :: string where
  "lower_letters = ''abcdefghijklmnopqrstuvwxyz''"

definition char_lower :: "char \<Rightarrow> char" where
  "char_lower c = (case map_of (zip upper_letters lower_letters) c of Some d \<Rightarrow> d | None \<Rightarrow> c)"

definition char_upper :: "char \<Rightarrow> char" where
  "char_upper c = (case map_of (zip lower_letters upper_letters) c of Some d \<Rightarrow> d | None \<Rightarrow> c)"

definition is_lower :: "char \<Rightarrow> bool" where
  "is_lower c = (c \<in> set lower_letters)"

definition is_upper :: "char \<Rightarrow> bool" where
  "is_upper c = (c \<in> set upper_letters)"

text \<open>\<open>s.lower()\<close>\<close>

definition lower :: "string \<Rightarrow> string" where
  "lower s = map char_lower s"

text \<open>
  \<open>s.title()\<close>: a cased character that follows a cased character is lowercased, any
  other cased character is uppercased; the flag is whether the previous character was
  cased.
\<close>

fun title_from :: "bool \<Rightarrow> string \<Rightarrow> string" where
  "title_from prev [] = []"
| "title_from prev (c # cs) =
     (if is_lower c then (if prev then c else char_upper c) # title_from True cs
      else if is_upper c then (if prev then char_lower c else c) # title_from True cs
      else c # title_from False cs)"

definition title :: "string \<Rightarrow> string" where
  "title s = title_from False s"

text \<open>\<open>sub in s\<close> on strings: \<open>sub\<close> occurs in \<open>s\<close> as a contiguous run.\<close>

fun starts_with :: "string \<Rightarrow> string \<Rightarrow> bool" where
  "starts_with [] s = True"
| "starts_with (p # ps) [] = False"
| "starts_with (p # ps) (c # cs) = (p = c \<and> starts_with ps cs)"

fun contains :: "string \<Rightarrow> string \<Rightarrow> bool" where
  "contains sub [] = (sub = [])"
| "contains sub (c # cs) = (starts_with sub (c # cs) \<or> contains sub cs)"

text \<open>\<open>s.split(sep)\<close> for a one-character separator: never the empty list.\<close>

fun split :: "char \<Rightarrow> string \<Rightarrow> string list" where
  "split sep [] = [[]]"
| "split sep (c # cs) =
     (if c = sep then [] # split sep cs
      else (case split sep cs of p # ps \<Rightarrow> (c # p) # ps | [] \<Rightarrow> [[c]]))"

section \<open>Exceptions and JSON values\<close>

text \<open>
  The exceptions the code can meet. All of them derive from Python's \<open>Exception\<close>;
  \<open>WebSocketDisconnect\<close> has a handler of its own.
\<close>

datatype exn =
    WebSocketDisconnect
  | JSONDecodeError
  | KeyError
  | TypeError
  | IndexError
  | AttributeError
  | ValueError
  | Base64Error
  | UnidentifiedImageError
  | CvError
  | RuntimeError

datatype json =
    JNull
  | JBool bool
  | JInt int
  | JFloat real
  | JStr string
  | JArr "json list"
  | JObj "(string \<times> json) list"

text \<open>\<open>d[key]\<close> on a value that \<open>json.loads\<close> returned: only a dict can be indexed by a string.\<close>

fun getitem :: "json \<Rightarrow> string \<Rightarrow> exn + json" where
  "getitem (JObj kvs) key = (case map_of kvs key of None \<Rightarrow> Inl KeyError | Some v \<Rightarrow> Inr v)"
| "getitem v key = Inl TypeError"

text \<open>\<open>d.get(key, default)\<close>: a method of dicts only.\<close>

fun dict_get :: "json \<Rightarrow> string \<Rightarrow> json \<Rightarrow> exn + json" where
  "dict_get (JObj kvs) key dflt = (case map_of kvs key of None \<Rightarrow> Inr dflt | Some v \<Rightarrow> Inr v)"
| "dict_get v key dflt = Inl AttributeError"

section \<open>The detector adapter\<close>

text \<open>
  One raw output box of the model: \<open>box.xyxy[0]\<close>, \<open>box.conf[0]\<close>, \<open>box.cls[0]\<close>.
  One result of a model call: \<open>result.boxes\<close>, which may be \<open>None\<close>.
  The model singleton: calling it on a frame (it may raise) and its \<open>names\<close> dict, which
  \<open>hasattr\<close> may find absent.
\<close>

record box =
  xyxy :: "real \<times> real \<times> real \<times> real"
  conf :: real
  cls :: real

record result =
  boxes :: "box list option"

record 'f yolo =
  infer :: "'f \<Rightarrow> exn + result list"
  names :: "(int \<times> string) list option"

text \<open>\<open>int(x)\<close> on a float: truncation towards zero.\<close>

definition int_of_float :: "real \<Rightarrow> int" where
  "int_of_float x = (if 0 \<le> x then \<lfloor>x\<rfloor> else \<lceil>x\<rceil>)"

definition trash_classes :: "string list" where
  "trash_classes =
    [''bottle'', ''cup'', ''fork'', ''knife'', ''spoon'', ''bowl'',
     ''banana'', ''apple'', ''sandwich'', ''orange'', ''broccoli'',
     ''carrot'', ''hot dog'', ''pizza'', ''donut'', ''cake'',
     ''cell phone'', ''book'', ''scissors'', ''teddy bear'',
     ''toothbrush'', ''hair drier'', ''backpack'', ''handbag'',
     ''suitcase'', ''frisbee'', ''skis'', ''snowboard'', ''sports ball'',
     ''kite'', ''baseball bat'', ''baseball glove'', ''skateboard'',
     ''surfboard'', ''tennis racket'', ''wine glass'']"

definition is_potential_trash :: "real \<Rightarrow> string \<Rightarrow> bool" where
  "is_potential_trash confidence class_name =
     (confidence > 0.25 \<and>
      (lower class_name \<in> set (map lower trash_classes) \<or>
       contains ''trash'' (lower class_name) \<or>
       contains ''litter'' (lower class_name) \<or>
       contains ''waste'' (lower class_name) \<or>
       contains ''garbage'' (lower class_name) \<or>
       contains ''cigarette'' (lower class_name) \<or>
       contains ''can'' (lower class_name) \<or>
       contains ''bag'' (lower class_name)))"

definition food_names :: "string list" where
  "food_names = [''banana'', ''apple'', ''orange'', ''sandwich'', ''pizza'']"

definition trash_type :: "string \<Rightarrow> string" where
  "trash_type class_name =
     (if contains ''bottle'' (lower class_name) then ''Plastic Bottle''
      else if contains ''cup'' (lower class_name) then ''Disposable Cup''
      else if contains ''can'' (lower class_name) then ''Aluminum Can''
      else if contains ''bag'' (lower class_name) then ''Plastic Bag''
      else if contains ''cigarette'' (lower class_name) then ''Cigarette Butt''
      else if contains ''trash'' (lower class_name) \<or> contains ''garbage'' (lower class_name)
        then title class_name
      else if list_ex (\<lambda>food. contains food (lower class_name)) food_names
        then ''Food Waste: '' @ title class_name
      else ''Potential Litter: '' @ title class_name)"

text \<open>One entry of the returned list (a dict in the source).\<close>

record detection =
  bbox :: "real list"
  confidence :: real
  class_name :: string
  class_id :: int
  original_class :: string

text \<open>\<open>model.names[class_id]\<close>: the attribute may be missing, and so may the key.\<close>

definition lookup_name :: "(int \<times> string) list option \<Rightarrow> int \<Rightarrow> exn + string" where
  "lookup_name ns i =
     (case ns of
        None \<Rightarrow> Inl AttributeError
      | Some d \<Rightarrow> (case map_of d i of None \<Rightarrow> Inl KeyError | Some n \<Rightarrow> Inr n))"

text \<open>
  The body of the inner \<open>for box in boxes\<close> loop: the detection appended for this box,
  \<open>None\<close> when the box is not admitted, or the exception raised.
\<close>

definition process_box :: "(int \<times> string) list option \<Rightarrow> box \<Rightarrow> exn + detection option" where
  "process_box ns b =
     (case xyxy b of (x1, y1, x2, y2) \<Rightarrow>
        (let conf_v = conf b;
             cls_id = int_of_float (cls b)
         in case lookup_name ns cls_id of
              Inl e \<Rightarrow> Inl e
            | Inr cls_name \<Rightarrow>
                if is_potential_trash conf_v cls_name
                then Inr (Some \<lparr>bbox = [x1, y1, x2, y2],
                                confidence = conf_v,
                                class_name = trash_type cls_name,
                                class_id = cls_id,
                                original_class = cls_name\<rparr>)
                else Inr None))"

fun process_boxes :: "(int \<times> string) list option \<Rightarrow> box list \<Rightarrow> detection list \<Rightarrow> exn + detection list" where
  "process_boxes ns [] detections = Inr detections"
| "process_boxes ns (b # bs) detections =
     (case process_box ns b of
        Inl e \<Rightarrow> Inl e
      | Inr None \<Rightarrow> process_boxes ns bs detections
      | Inr (Some d) \<Rightarrow> process_boxes ns bs (detections @ [d]))"

fun process_results :: "(int \<times> string) list option \<Rightarrow> result list \<Rightarrow> detection list \<Rightarrow> exn + detection list" where
  "process_results ns [] detections = Inr detections"
| "process_results ns (r # rs) detections =
     (case boxes r of
        None \<Rightarrow> process_results ns rs detections
      | Some bs \<Rightarrow>
          (case process_boxes ns bs detections of
             Inl e \<Rightarrow> Inl e
           | Inr detections' \<Rightarrow> process_results ns rs detections'))"

text \<open>
  \<open>try: body except Exception: handler\<close>: an exception of the body is handed to the
  handler, whose own outcome is the outcome of the statement.
\<close>

definition try_except :: "exn + 'a \<Rightarrow> (exn \<Rightarrow> exn + 'a) \<Rightarrow> exn + 'a" where
  "try_except body handler = (case body of Inl e \<Rightarrow> handler e | Inr v \<Rightarrow> Inr v)"

text \<open>The \<open>try\<close> block of \<open>detect_trash\<close>, with the exception it may end in.\<close>

definition detect_body :: "'f yolo \<Rightarrow> 'f \<Rightarrow> exn + detection list" where
  "detect_body m frame =
     (case infer m frame of
        Inl e \<Rightarrow> Inl e
      | Inr results \<Rightarrow> process_results (names m) results [])"

text \<open>
  \<open>detect_trash\<close>: the global \<open>model\<close> is \<open>None\<close> until it is loaded. The outcome is
  kept as a sum, so that an exception leaving the function would show as \<open>Inl\<close>.
\<close>

definition detect_trash :: "'f yolo option \<Rightarrow> 'f \<Rightarrow> exn + detection list" where
  "detect_trash model frame =
     (case model of
        None \<Rightarrow> Inr []
      | Some m \<Rightarrow> try_except (detect_body m frame) (\<lambda>e. Inr []))"

section \<open>The frame decoder\<close>

text \<open>
  What the process reads: the library calls whose results the code depends on
  (\<open>json.loads\<close>, \<open>base64.b64decode\<close>, \<open>Image.open\<close> on the decoded bytes, and
  \<open>cv2.cvtColor\<close> on the array of the image), each with the exception it may raise, and
  the two globals \<open>model\<close> and \<open>device\<close>.
\<close>

record ('i, 'f) env =
  json_loads :: "string \<Rightarrow> exn + json"
  b64decode :: "string \<Rightarrow> exn + string"
  image_open :: "string \<Rightarrow> exn + 'i"
  cvtColor :: "'i \<Rightarrow> exn + 'f"
  model :: "'f yolo option"
  device :: "string option"

text \<open>\<open>xs[1]\<close>\<close>

definition index1 :: "string list \<Rightarrow> exn + string" where
  "index1 xs = (case xs of a # b # rest \<Rightarrow> Inr b | _ \<Rightarrow> Inl IndexError)"

text \<open>The \<open>try\<close> block of \<open>preprocess_frame\<close>; only a \<open>str\<close> has \<open>split\<close>.\<close>

definition preprocess_body :: "('i, 'f) env \<Rightarrow> json \<Rightarrow> exn + 'f" where
  "preprocess_body env frame_data =
     (case frame_data of
        JStr s \<Rightarrow>
          (case index1 (split CHR '','' s) of
             Inl e \<Rightarrow> Inl e
           | Inr payload \<Rightarrow>
               (case b64decode env payload of
                  Inl e \<Rightarrow> Inl e
                | Inr image_data \<Rightarrow>
                    (case image_open env image_data of
                       Inl e \<Rightarrow> Inl e
                     | Inr img \<Rightarrow> cvtColor env img)))
      | _ \<Rightarrow> Inl AttributeError)"

definition preprocess_frame :: "('i, 'f) env \<Rightarrow> json \<Rightarrow> exn + 'f option" where
  "preprocess_frame env frame_data =
     try_except
       (case preprocess_body env frame_data of Inl e \<Rightarrow> Inl e | Inr frame \<Rightarrow> Inr (Some frame))
       (\<lambda>e. Inr None)"

section \<open>The transport session\<close>

definition detection_json :: "detection \<Rightarrow> json" where
  "detection_json d =
     JObj [(''bbox'', JArr (map JFloat (bbox d))),
           (''confidence'', JFloat (confidence d)),
           (''class_name'', JStr (class_name d)),
           (''class_id'', JInt (class_id d)),
           (''original_class'', JStr (original_class d))]"

definition response :: "json \<Rightarrow> detection list \<Rightarrow> exn + json" where
  "response frame_info detections =
     (case dict_get frame_info ''timestamp'' JNull of
        Inl e \<Rightarrow> Inl e
      | Inr ts \<Rightarrow>
          (case dict_get frame_info ''frame_count'' (JInt 0) of
             Inl e \<Rightarrow> Inl e
           | Inr fc \<Rightarrow>
               Inr (JObj [(''detections'', JArr (map detection_json detections)),
                          (''timestamp'', ts),
                          (''frame_count'', fc)])))"

definition error_response :: json where
  "error_response = JObj [(''error'', JStr ''Failed to process frame''), (''detections'', JArr [])]"

text \<open>
  From the received text to the dict handed to \<open>json.dumps\<close> and
  \<open>send_personal_message\<close>, or the exception raised on the way.
\<close>

definition reply :: "('i, 'f) env \<Rightarrow> string \<Rightarrow> exn + json" where
  "reply env data =
     (case json_loads env data of
        Inl e \<Rightarrow> Inl e
      | Inr frame_info \<Rightarrow>
          (case getitem frame_info ''frame'' of
             Inl e \<Rightarrow> Inl e
           | Inr frame_data \<Rightarrow>
               (case preprocess_frame env frame_data of
                  Inl e \<Rightarrow> Inl e
                | Inr (Some frame) \<Rightarrow>
                    (case detect_trash (model env) frame of
                       Inl e \<Rightarrow> Inl e
                     | Inr detections \<Rightarrow> response frame_info detections)
                | Inr None \<Rightarrow> Inr error_response)))"

text \<open>
  One turn of the connection, as the transport decides it: what \<open>receive_text\<close>
  returns or raises, and the exception \<open>send_text\<close> raises if it is called in this turn
  (\<open>None\<close> when the message goes through). The session's visible actions are the texts
  it received and the messages it sent, in order.
\<close>

record turn =
  incoming :: "exn + string"
  send_raises :: "exn option"

datatype io = Received string | Sent json

text \<open>One iteration of \<open>while True\<close>: its actions, and the exception that ends the loop.\<close>

definition loop_body :: "('i, 'f) env \<Rightarrow> turn \<Rightarrow> io list \<times> exn option" where
  "loop_body env t =
     (case incoming t of
        Inl e \<Rightarrow> ([], Some e)
      | Inr data \<Rightarrow>
          (case reply env data of
             Inl e \<Rightarrow> ([Received data], Some e)
           | Inr msg \<Rightarrow>
               (case send_raises t of
                  Some e \<Rightarrow> ([Received data], Some e)
                | None \<Rightarrow> ([Received data, Sent msg], None))))"

text \<open>
  The loop over the turns the transport supplies. It has no exit of its own: it ends by
  an exception, or it has consumed every turn and waits in \<open>receive_text\<close> (\<open>None\<close>).
\<close>

fun session_loop :: "('i, 'f) env \<Rightarrow> turn list \<Rightarrow> io list \<Rightarrow> io list \<times> exn option" where
  "session_loop env [] trace = (trace, None)"
| "session_loop env (t # ts) trace =
     (case loop_body env t of
        (acts, Some e) \<Rightarrow> (trace @ acts, Some e)
      | (acts, None) \<Rightarrow> session_loop env ts (trace @ acts))"

text \<open>
  \<open>ConnectionManager\<close>: \<open>connect\<close> appends after \<open>accept\<close> (which may raise),
  \<open>disconnect\<close> is \<open>list.remove\<close>, which raises \<open>ValueError\<close> on a missing element.
\<close>

definition connect :: "exn option \<Rightarrow> 'w \<Rightarrow> 'w list \<Rightarrow> exn + 'w list" where
  "connect accept_raises websocket active_connections =
     (case accept_raises of
        Some e \<Rightarrow> Inl e
      | None \<Rightarrow> Inr (active_connections @ [websocket]))"

definition disconnect :: "'w \<Rightarrow> 'w list \<Rightarrow> exn + 'w list" where
  "disconnect websocket active_connections =
     (if websocket \<in> set active_connections
      then Inr (remove1 websocket active_connections)
      else Inl ValueError)"

text \<open>
  The registry is shared: while one session runs, other sessions connect and disconnect
  their own websockets. An operation that raises leaves the list as it was.
\<close>

datatype 'w registry_op = Connect 'w | Disconnect 'w

fun apply_op :: "'w list \<Rightarrow> 'w registry_op \<Rightarrow> 'w list" where
  "apply_op active (Connect w) = (case connect None w active of Inl e \<Rightarrow> active | Inr a \<Rightarrow> a)"
| "apply_op active (Disconnect w) = (case disconnect w active of Inl e \<Rightarrow> active | Inr a \<Rightarrow> a)"

fun websocket_of :: "'w registry_op \<Rightarrow> 'w" where
  "websocket_of (Connect w) = w"
| "websocket_of (Disconnect w) = w"

text \<open>
  \<open>websocket_detect\<close>: how the handler ends, what the session did, and the registry
  afterwards. Both handlers deregister; an exception raised inside a handler leaves the
  function.
\<close>

datatype ending = Waiting | Returned | Propagated exn

definition handler :: "'w \<Rightarrow> io list \<Rightarrow> 'w list \<Rightarrow> ending \<times> io list \<times> 'w list" where
  "handler websocket trace active =
     (case disconnect websocket active of
        Inl e \<Rightarrow> (Propagated e, trace, active)
      | Inr active' \<Rightarrow> (Returned, trace, active'))"

definition websocket_detect ::
  "('i, 'f) env \<Rightarrow> exn option \<Rightarrow> 'w \<Rightarrow> turn list \<Rightarrow> 'w registry_op list \<Rightarrow> 'w list
     \<Rightarrow> ending \<times> io list \<times> 'w list" where
  "websocket_detect env accept_raises websocket turns others active_connections =
     (case connect accept_raises websocket active_connections of
        Inl e \<Rightarrow> (Propagated e, [], active_connections)
      | Inr joined \<Rightarrow>
          (case session_loop env turns [] of
             (trace, stop) \<Rightarrow>
               (let active = foldl apply_op joined others
                in case stop of
                     None \<Rightarrow> (Waiting, trace, active)
                   | Some e \<Rightarrow>
                       if e = WebSocketDisconnect
                       then handler websocket trace active
                       else handler websocket trace active)))"

section \<open>The readiness endpoints\<close>

datatype http_exception = HTTPException int string

definition device_json :: "string option \<Rightarrow> json" where
  "device_json d = (case d of None \<Rightarrow> JNull | Some s \<Rightarrow> JStr s)"

definition health_check :: "('i, 'f) env \<Rightarrow> http_exception + json" where
  "health_check env =
     Inr (JObj [(''status'', JStr ''healthy''),
                (''model_loaded'', JBool (case model env of None \<Rightarrow> False | Some m \<Rightarrow> True)),
                (''device'', device_json (device env))])"

definition model_info :: "('i, 'f) env \<Rightarrow> http_exception + json" where
  "model_info env =
     (case model env of
        None \<Rightarrow> Inl (HTTPException 503 ''Model not loaded'')
      | Some m \<Rightarrow>
          Inr (JObj [(''model_type'', JStr ''YOLOv8''),
                     (''device'', device_json (device env)),
                     (''classes'',
                        JArr (case names m of None \<Rightarrow> [] | Some d \<Rightarrow> map (\<lambda>(i, n). JStr n) d)),
                     (''status'', JStr ''ready'')]))"

section \<open>Notions used to state the properties\<close>

text \<open>
  The admission rule in the words of the specification: the confidence exceeds 0.25, and
  the lowercased class name is an entry of the allow-list or contains a trigger substring.
\<close>

definition trigger_substrings :: "string list" where
  "trigger_substrings =
     [''trash'', ''litter'', ''waste'', ''garbage'', ''cigarette'', ''can'', ''bag'']"

definition admission_rule :: "real \<Rightarrow> string \<Rightarrow> bool" where
  "admission_rule c n =
     (c > 0.25 \<and>
      (lower n \<in> set trash_classes \<or> list_ex (\<lambda>t. contains t (lower n)) trigger_substrings))"

text \<open>All raw boxes of a model call, in emission order.\<close>

definition raw_boxes :: "result list \<Rightarrow> box list" where
  "raw_boxes rs = concat (map (\<lambda>r. case boxes r of None \<Rightarrow> [] | Some bs \<Rightarrow> bs) rs)"

text \<open>The model's class name of a box, when it has one.\<close>

definition box_name :: "(int \<times> string) list option \<Rightarrow> box \<Rightarrow> string option" where
  "box_name ns b = (case lookup_name ns (int_of_float (cls b)) of Inl e \<Rightarrow> None | Inr n \<Rightarrow> Some n)"

definition admitted :: "(int \<times> string) list option \<Rightarrow> box \<Rightarrow> bool" where
  "admitted ns b = (case box_name ns b of None \<Rightarrow> False | Some n \<Rightarrow> admission_rule (conf b) n)"

text \<open>The raw outputs of a box, carried over field by field, with the derived label.\<close>

definition emit :: "(int \<times> string) list option \<Rightarrow> box \<Rightarrow> detection" where
  "emit ns b =
     (case xyxy b of (x1, y1, x2, y2) \<Rightarrow>
        (let n = (case box_name ns b of None \<Rightarrow> [] | Some n \<Rightarrow> n)
         in \<lparr>bbox = [x1, y1, x2, y2], confidence = conf b, class_name = trash_type n,
             class_id = int_of_float (cls b), original_class = n\<rparr>))"

text \<open>
  The label rules in the words of the specification: an ordered list of pairs of a
  predicate and a label producer, read from the top, the first match winning, with a
  producer for the case that none matches. A check is a case-insensitive substring check
  on the raw class name.
\<close>

definition has :: "string \<Rightarrow> string \<Rightarrow> bool" where
  "has sub n = contains sub (lower n)"

definition label_rules :: "((string \<Rightarrow> bool) \<times> (string \<Rightarrow> string)) list" where
  "label_rules =
     [(has ''bottle'', \<lambda>n. ''Plastic Bottle''),
      (has ''cup'', \<lambda>n. ''Disposable Cup''),
      (has ''can'', \<lambda>n. ''Aluminum Can''),
      (has ''bag'', \<lambda>n. ''Plastic Bag''),
      (has ''cigarette'', \<lambda>n. ''Cigarette Butt''),
      (\<lambda>n. has ''trash'' n \<or> has ''garbage'' n, title),
      (\<lambda>n. list_ex (\<lambda>food. has food n) food_names, \<lambda>n. ''Food Waste: '' @ title n)]"

definition otherwise_label :: "string \<Rightarrow> string" where
  "otherwise_label n = ''Potential Litter: '' @ title n"

fun first_match :: "((string \<Rightarrow> bool) \<times> (string \<Rightarrow> string)) list \<Rightarrow> string \<Rightarrow> string" where
  "first_match [] n = otherwise_label n"
| "first_match ((p, f) # rules) n = (if p n then f n else first_match rules n)"

text \<open>
  A turn of the connection through its parts: the text received, the dict parsed from
  it, a field of that dict with the value echoed when it is absent, and the reply.
\<close>

definition text_of :: "turn \<Rightarrow> string" where
  "text_of t = (case incoming t of Inl e \<Rightarrow> [] | Inr data \<Rightarrow> data)"

definition frame_info_of :: "('i, 'f) env \<Rightarrow> turn \<Rightarrow> json" where
  "frame_info_of env t = (case json_loads env (text_of t) of Inl e \<Rightarrow> JNull | Inr v \<Rightarrow> v)"

definition field_or :: "json \<Rightarrow> string \<Rightarrow> json \<Rightarrow> json" where
  "field_or v key dflt =
     (case v of
        JObj kvs \<Rightarrow> (case map_of kvs key of None \<Rightarrow> dflt | Some x \<Rightarrow> x)
      | _ \<Rightarrow> dflt)"

definition result_of :: "('i, 'f) env \<Rightarrow> turn \<Rightarrow> json" where
  "result_of env t = (case reply env (text_of t) of Inl e \<Rightarrow> JNull | Inr msg \<Rightarrow> msg)"

text \<open>
  A decodable frame message: a text arrives, it parses, it has a frame field, the frame
  decodes to a pixel buffer, and the transport takes the reply.
\<close>

definition decodable :: "('i, 'f) env \<Rightarrow> turn \<Rightarrow> bool" where
  "decodable env t =
     (case incoming t of
        Inl e \<Rightarrow> False
      | Inr data \<Rightarrow>
          (case json_loads env data of
             Inl e \<Rightarrow> False
           | Inr frame_info \<Rightarrow>
               (case getitem frame_info ''frame'' of
                  Inl e \<Rightarrow> False
                | Inr frame_data \<Rightarrow>
                    (case preprocess_frame env frame_data of
                       Inr (Some frame) \<Rightarrow> send_raises t = None
                     | _ \<Rightarrow> False))))"

fun sent_messages :: "io list \<Rightarrow> json list" where
  "sent_messages [] = []"
| "sent_messages (Received s # acts) = sent_messages acts"
| "sent_messages (Sent m # acts) = m # sent_messages acts"

text \<open>The actions of a run of decodable turns: each text received, then its reply sent.\<close>

definition exchanges :: "('i, 'f) env \<Rightarrow> turn list \<Rightarrow> io list" where
  "exchanges env turns = concat (map (\<lambda>t. [Received (text_of t), Sent (result_of env t)]) turns)"

section \<open>Example inputs\<close>

text \<open>
  A loaded model over a frame type with one frame: its call returns one result without
  boxes and one with four boxes (a bottle, a bottle at the threshold, a chair, a banana).
\<close>

definition example_names :: "(int \<times> string) list" where
  "example_names = [(39, ''bottle''), (46, ''banana''), (56, ''chair'')]"

definition bottle_box :: box where
  "bottle_box = \<lparr>xyxy = (1, 2, 30, 40), conf = 0.9, cls = 39\<rparr>"

definition faint_box :: box where
  "faint_box = \<lparr>xyxy = (5, 6, 7, 8), conf = 0.25, cls = 39\<rparr>"

definition chair_box :: box where
  "chair_box = \<lparr>xyxy = (0, 0, 9, 9), conf = 0.99, cls = 56\<rparr>"

definition banana_box :: box where
  "banana_box = \<lparr>xyxy = (2, 2, 4, 4), conf = 0.5, cls = 46\<rparr>"

definition example_results :: "result list" where
  "example_results =
     [\<lparr>boxes = None\<rparr>, \<lparr>boxes = Some [bottle_box, faint_box, chair_box, banana_box]\<rparr>]"

definition example_model :: "unit yolo" where
  "example_model = \<lparr>infer = (\<lambda>frame. Inr example_results), names = Some example_names\<rparr>"

definition bottle_detection :: detection where
  "bottle_detection =
     \<lparr>bbox = [1, 2, 30, 40], confidence = 0.9, class_name = ''Plastic Bottle'',
      class_id = 39, original_class = ''bottle''\<rparr>"

definition banana_detection :: detection where
  "banana_detection =
     \<lparr>bbox = [2, 2, 4, 4], confidence = 0.5, class_name = ''Food Waste: Banana'',
      class_id = 46, original_class = ''banana''\<rparr>"

text \<open>A model whose call raises, and one that reports a class id it has no name for.\<close>

definition raising_model :: "unit yolo" where
  "raising_model = \<lparr>infer = (\<lambda>frame. Inl RuntimeError), names = Some example_names\<rparr>"

definition nameless_model :: "unit yolo" where
  "nameless_model =
     \<lparr>infer = (\<lambda>frame. Inr [\<lparr>boxes = Some [bottle_box, \<lparr>xyxy = (0, 0, 1, 1), conf = 0.8, cls = 7\<rparr>]\<rparr>]),
      names = Some example_names\<rparr>"

text \<open>
  Stand-ins for the libraries on the texts of the examples: \<open>json.loads\<close> on five texts
  (any other text of the examples is not JSON), and a decoder that takes the payload
  \<open>AAAA\<close> for the encoding of the one frame.
\<close>

definition full_text :: string where
  \<open>full_text = ''{"frame": "data:image/jpeg;base64,AAAA", "timestamp": 17, "frame_count": 3}''\<close>

definition bare_text :: string where
  \<open>bare_text = ''{"frame": "data:image/jpeg;base64,AAAA"}''\<close>

definition commaless_text :: string where
  \<open>commaless_text = ''{"frame": "no comma"}''\<close>

definition frameless_text :: string where
  \<open>frameless_text = ''{"frame_count": 4}''\<close>

definition example_loads :: "string \<Rightarrow> exn + json" where
  "example_loads s =
     (if s = full_text
        then Inr (JObj [(''frame'', JStr ''data:image/jpeg;base64,AAAA''),
                        (''timestamp'', JInt 17), (''frame_count'', JInt 3)])
      else if s = bare_text
        then Inr (JObj [(''frame'', JStr ''data:image/jpeg;base64,AAAA'')])
      else if s = commaless_text
        then Inr (JObj [(''frame'', JStr ''no comma'')])
      else if s = frameless_text
        then Inr (JObj [(''frame_count'', JInt 4)])
      else Inl JSONDecodeError)"

definition example_env :: "(unit, unit) env" where
  "example_env =
     \<lparr>json_loads = example_loads,
      b64decode = (\<lambda>payload. if payload = ''AAAA'' then Inr ''image bytes'' else Inl Base64Error),
      image_open = (\<lambda>image_data. Inr ()),
      cvtColor = (\<lambda>img. Inr ()),
      model = Some example_model,
      device = Some ''cpu''\<rparr>"

definition arriving :: "string \<Rightarrow> turn" where
  "arriving data = \<lparr>incoming = Inr data, send_raises = None\<rparr>"

definition closing :: turn where
  "closing = \<lparr>incoming = Inl WebSocketDisconnect, send_raises = None\<rparr>"

text \<open>The same process before the model is loaded, and the replies to the two frame texts.\<close>

definition unloaded_env :: "(unit, unit) env" where
  "unloaded_env = example_env\<lparr>model := None\<rparr>"

definition full_result :: json where
  "full_result =
     JObj [(''detections'', JArr (map detection_json [bottle_detection, banana_detection])),
           (''timestamp'', JInt 17), (''frame_count'', JInt 3)]"

definition bare_result :: json where
  "bare_result =
     JObj [(''detections'', JArr (map detection_json [bottle_detection, banana_detection])),
           (''timestamp'', JNull), (''frame_count'', JInt 0)]"

section \<open>Strings: the substring test and the case tables\<close>

lemmas case_tables =
  lower_def char_lower_def char_upper_def upper_letters_def lower_letters_def
  is_lower_def is_upper_def title_def

lemma starts_with_prefix: "starts_with p s = prefix p s"
  by (induction p s rule: starts_with.induct) auto

lemma contains_sublist: "contains sub s = sublist sub s"
proof (induction s)
  case Nil
  then show ?case by simp
next
  case (Cons c cs)
  then show ?case by (simp add: starts_with_prefix sublist_Cons_right)
qed

lemma lower_trash_classes: "map lower trash_classes = trash_classes"
  by (simp add: trash_classes_def case_tables)

section \<open>The detector adapter: what the loops compute\<close>

lemma is_potential_trash_rule: "is_potential_trash c n = admission_rule c n"
  unfolding is_potential_trash_def admission_rule_def lower_trash_classes trigger_substrings_def
  by auto

lemma process_box_known:
  "box_name ns b \<noteq> None \<Longrightarrow>
   process_box ns b = Inr (if admitted ns b then Some (emit ns b) else None)"
  by (cases "xyxy b")
     (auto simp: process_box_def box_name_def admitted_def emit_def is_potential_trash_rule Let_def
        split: sum.splits)

lemma process_box_Inr:
  "process_box ns b = Inr r \<Longrightarrow> r = (if admitted ns b then Some (emit ns b) else None)"
proof -
  assume ok: "process_box ns b = Inr r"
  then have "box_name ns b \<noteq> None"
    by (cases "xyxy b") (auto simp: process_box_def box_name_def Let_def split: sum.splits)
  from process_box_known [OF this] ok show ?thesis by simp
qed

lemma process_boxes_Inr:
  "process_boxes ns bs acc = Inr out \<Longrightarrow> out = acc @ map (emit ns) (filter (admitted ns) bs)"
proof (induction bs arbitrary: acc)
  case Nil
  then show ?case by simp
next
  case (Cons b bs)
  from Cons.prems obtain r where r: "process_box ns b = Inr r"
    by (auto split: sum.splits)
  note adm = process_box_Inr [OF r]
  show ?case
  proof (cases "admitted ns b")
    case True
    with adm r Cons.prems have "process_boxes ns bs (acc @ [emit ns b]) = Inr out" by simp
    from Cons.IH [OF this] True show ?thesis by simp
  next
    case False
    with adm r Cons.prems have "process_boxes ns bs acc = Inr out" by simp
    from Cons.IH [OF this] False show ?thesis by simp
  qed
qed

lemma process_boxes_known:
  "\<forall>b\<in>set bs. box_name ns b \<noteq> None \<Longrightarrow>
   process_boxes ns bs acc = Inr (acc @ map (emit ns) (filter (admitted ns) bs))"
proof (induction bs arbitrary: acc)
  case Nil
  then show ?case by simp
next
  case (Cons b bs)
  then have "box_name ns b \<noteq> None" by simp
  note step = process_box_known [OF this]
  from Cons have IH: "\<And>acc. process_boxes ns bs acc = Inr (acc @ map (emit ns) (filter (admitted ns) bs))"
    by simp
  show ?case by (simp add: step IH)
qed

lemma process_results_Inr:
  "process_results ns rs acc = Inr out \<Longrightarrow>
   out = acc @ map (emit ns) (filter (admitted ns) (raw_boxes rs))"
proof (induction rs arbitrary: acc)
  case Nil
  then show ?case by (simp add: raw_boxes_def)
next
  case (Cons r rs)
  show ?case
  proof (cases "boxes r")
    case None
    with Cons show ?thesis by (simp add: raw_boxes_def)
  next
    case (Some bs)
    with Cons.prems obtain mid where
      mid: "process_boxes ns bs acc = Inr mid" and rest: "process_results ns rs mid = Inr out"
      by (auto split: sum.splits)
    from process_boxes_Inr [OF mid] Cons.IH [OF rest] Some
    show ?thesis by (simp add: raw_boxes_def)
  qed
qed

lemma process_results_known:
  "\<forall>b\<in>set (raw_boxes rs). box_name ns b \<noteq> None \<Longrightarrow>
   process_results ns rs acc = Inr (acc @ map (emit ns) (filter (admitted ns) (raw_boxes rs)))"
proof (induction rs arbitrary: acc)
  case Nil
  then show ?case by (simp add: raw_boxes_def)
next
  case (Cons r rs)
  show ?case
  proof (cases "boxes r")
    case None
    with Cons show ?thesis by (simp add: raw_boxes_def)
  next
    case (Some bs)
    with Cons.prems have k1: "\<forall>b\<in>set bs. box_name ns b \<noteq> None"
      and k2: "\<forall>b\<in>set (raw_boxes rs). box_name ns b \<noteq> None"
      by (auto simp: raw_boxes_def)
    show ?thesis
      using Some process_boxes_known [OF k1, of acc] Cons.IH [OF k2]
      by (simp add: raw_boxes_def)
  qed
qed

section \<open>Evaluation of the examples\<close>

lemma lower_examples:
  "lower ''bottle'' = ''bottle''" "lower ''banana'' = ''banana''" "lower ''chair'' = ''chair''"
  by code_simp+

lemma trash_type_examples:
  "trash_type ''bottle'' = ''Plastic Bottle''" "trash_type ''banana'' = ''Food Waste: Banana''"
  by code_simp+

lemma admission_examples:
  "admission_rule c ''bottle'' = (c > 0.25)"
  "admission_rule c ''banana'' = (c > 0.25)"
  "admission_rule c ''chair'' = False"
  by (simp_all add: admission_rule_def lower_examples trigger_substrings_def)
     (simp_all add: trash_classes_def)

lemma box_name_examples:
  "box_name (Some example_names) bottle_box = Some ''bottle''"
  "box_name (Some example_names) faint_box = Some ''bottle''"
  "box_name (Some example_names) chair_box = Some ''chair''"
  "box_name (Some example_names) banana_box = Some ''banana''"
  by (simp_all add: box_name_def lookup_name_def int_of_float_def example_names_def
        bottle_box_def faint_box_def chair_box_def banana_box_def)

lemma admitted_examples:
  "admitted (Some example_names) bottle_box"
  "\<not> admitted (Some example_names) faint_box"
  "\<not> admitted (Some example_names) chair_box"
  "admitted (Some example_names) banana_box"
  by (simp_all add: admitted_def box_name_examples admission_examples)
     (simp_all add: bottle_box_def faint_box_def banana_box_def)

lemma emit_examples:
  "emit (Some example_names) bottle_box = bottle_detection"
  "emit (Some example_names) banana_box = banana_detection"
  by (simp_all add: emit_def box_name_examples trash_type_examples)
     (simp_all add: bottle_box_def banana_box_def bottle_detection_def banana_detection_def
        int_of_float_def)

lemma raw_boxes_example:
  "raw_boxes example_results = [bottle_box, faint_box, chair_box, banana_box]"
  by (simp add: raw_boxes_def example_results_def)

lemma example_known:
  "\<forall>b\<in>set (raw_boxes example_results). box_name (names example_model) b \<noteq> None"
  by (simp add: raw_boxes_example example_model_def box_name_examples)

section \<open>The detector adapter: admission, labels, errors\<close>

lemma detect_trash_Some:
  "detect_trash (Some m) frame = Inr (case detect_body m frame of Inl e \<Rightarrow> [] | Inr ds \<Rightarrow> ds)"
  by (simp add: detect_trash_def try_except_def split: sum.splits)

lemma detect_body_known:
  assumes "infer m frame = Inr rs"
    and "\<forall>b\<in>set (raw_boxes rs). box_name (names m) b \<noteq> None"
  shows "detect_body m frame = Inr (map (emit (names m)) (filter (admitted (names m)) (raw_boxes rs)))"
  using assms process_results_known [of rs "names m" "[]"] by (simp add: detect_body_def)

lemma detect_body_Inr:
  assumes "detect_body m frame = Inr ds"
  shows "\<exists>rs. infer m frame = Inr rs \<and>
           ds = map (emit (names m)) (filter (admitted (names m)) (raw_boxes rs))"
proof (cases "infer m frame")
  case (Inl e)
  with assms show ?thesis by (simp add: detect_body_def)
next
  case (Inr rs)
  with assms have "process_results (names m) rs [] = Inr ds" by (simp add: detect_body_def)
  from process_results_Inr [OF this] Inr show ?thesis by simp
qed

lemma threshold_excludes: "c \<le> 0.25 \<Longrightarrow> \<not> admission_rule c n"
  by (simp add: admission_rule_def)

text \<open>
  C1. When the model call returns and every reported class id has a name, the result of
  \<open>detect_trash\<close> is, in emission order, exactly the raw boxes that satisfy the
  admission rule: confidence strictly above 0.25, and the lowercased class name an entry
  of the allow-list or containing one of the trigger substrings. The test of the code is
  that rule; it rejects every confidence of at most 0.25 whatever the class name, and it
  rejects the class name "chair" at every confidence.
\<close>

theorem admission_exact:
  assumes "infer m frame = Inr rs"
    and "\<forall>b\<in>set (raw_boxes rs). box_name (names m) b \<noteq> None"
  shows "detect_trash (Some m) frame =
           Inr (map (emit (names m)) (filter (admitted (names m)) (raw_boxes rs)))
       \<and> (\<forall>c n. is_potential_trash c n = admission_rule c n)
       \<and> (\<forall>c n. c \<le> 0.25 \<longrightarrow> \<not> is_potential_trash c n)
       \<and> (\<forall>c. \<not> is_potential_trash c ''chair'')"
  using detect_body_known [OF assms]
  by (simp add: detect_trash_Some is_potential_trash_rule threshold_excludes admission_examples)

text \<open>On the example model: the bottle and the banana are kept, the chair is not.\<close>

theorem admission_exact_witness:
  "detect_trash (Some example_model) () = Inr [bottle_detection, banana_detection]
   \<and> \<not> is_potential_trash 0.99 ''chair''"
proof -
  have run: "infer example_model () = Inr example_results"
    by (simp add: example_model_def)
  have ns: "names example_model = Some example_names"
    by (simp add: example_model_def)
  note fact = admission_exact [OF run example_known]
  from fact have out: "detect_trash (Some example_model) () =
      Inr (map (emit (names example_model))
        (filter (admitted (names example_model)) (raw_boxes example_results)))"
    by (rule conjunct1)
  from fact have chair: "\<not> is_potential_trash 0.99 ''chair''"
    by blast
  from out chair show ?thesis
    by (simp add: ns raw_boxes_example admitted_examples emit_examples)
qed

text \<open>
  C2. The display label computed by the code is the first match of the ordered rule list
  (bottle, cup, can, bag, cigarette, trash or garbage, the food set, otherwise), for every
  class name and so for the label of every admitted detection; the class name
  "trash can" gets "Aluminum Can", since the "can" rule stands before the "trash" rule.
\<close>

theorem label_first_match:
  "trash_type n = first_match label_rules n
   \<and> trash_type ''trash can'' = ''Aluminum Can''
   \<and> (\<forall>ns b d. process_box ns b = Inr (Some d) \<longrightarrow>
         class_name d = first_match label_rules (original_class d))"
proof -
  have rules: "\<And>n. trash_type n = first_match label_rules n"
    by (simp add: trash_type_def label_rules_def has_def otherwise_label_def)
  have can: "trash_type ''trash can'' = ''Aluminum Can''"
    by code_simp
  have "class_name d = first_match label_rules (original_class d)"
    if "process_box ns b = Inr (Some d)" for ns b d
  proof -
    from process_box_Inr [OF that] have "d = emit ns b"
      by (simp split: if_splits)
    then show ?thesis
      by (cases "xyxy b") (simp add: emit_def Let_def rules)
  qed
  with rules can show ?thesis by blast
qed

lemma process_box_bottle: "process_box (Some example_names) bottle_box = Inr (Some bottle_detection)"
  using process_box_known [of "Some example_names" bottle_box]
  by (simp add: box_name_examples admitted_examples emit_examples)

lemma process_box_banana: "process_box (Some example_names) banana_box = Inr (Some banana_detection)"
  using process_box_known [of "Some example_names" banana_box]
  by (simp add: box_name_examples admitted_examples emit_examples)

text \<open>On the bottle box of the example, and on "trash can".\<close>

theorem label_first_match_witness:
  "process_box (Some example_names) bottle_box = Inr (Some bottle_detection)
   \<and> class_name bottle_detection = first_match label_rules ''bottle''
   \<and> first_match label_rules ''trash can'' = ''Aluminum Can''"
proof -
  note fact = label_first_match [of "''trash can''"]
  from fact have "trash_type ''trash can'' = first_match label_rules ''trash can''"
    and "trash_type ''trash can'' = ''Aluminum Can''"
    by blast+
  then have can: "first_match label_rules ''trash can'' = ''Aluminum Can''"
    by simp
  from fact process_box_bottle
  have "class_name bottle_detection = first_match label_rules (original_class bottle_detection)"
    by blast
  with can process_box_bottle show ?thesis
    by (simp add: bottle_detection_def)
qed

lemma process_box_named: "process_box ns b = Inr r \<Longrightarrow> box_name ns b \<noteq> None"
  by (cases "xyxy b") (auto simp: process_box_def box_name_def Let_def split: sum.splits)

lemma process_boxes_named:
  "process_boxes ns bs acc = Inr out \<Longrightarrow> b \<in> set bs \<Longrightarrow> box_name ns b \<noteq> None"
proof (induction bs arbitrary: acc)
  case Nil
  then show ?case by simp
next
  case (Cons x xs)
  from Cons.prems(1) obtain r where r: "process_box ns x = Inr r"
    by (auto split: sum.splits)
  from Cons.prems(1) r obtain acc' where rest: "process_boxes ns xs acc' = Inr out"
    by (cases r) auto
  show ?case
  proof (cases "b = x")
    case True
    with process_box_named [OF r] show ?thesis by simp
  next
    case False
    with Cons.prems(2) have "b \<in> set xs" by simp
    from Cons.IH [OF rest this] show ?thesis .
  qed
qed

lemma process_results_named:
  "process_results ns rs acc = Inr out \<Longrightarrow> b \<in> set (raw_boxes rs) \<Longrightarrow> box_name ns b \<noteq> None"
proof (induction rs arbitrary: acc)
  case Nil
  then show ?case by (simp add: raw_boxes_def)
next
  case (Cons r rs)
  show ?case
  proof (cases "boxes r")
    case None
    with Cons.prems have "process_results ns rs acc = Inr out" "b \<in> set (raw_boxes rs)"
      by (simp_all add: raw_boxes_def)
    then show ?thesis by (rule Cons.IH)
  next
    case (Some bs)
    with Cons.prems(1) obtain mid where
      mid: "process_boxes ns bs acc = Inr mid" and rest: "process_results ns rs mid = Inr out"
      by (auto split: sum.splits)
    from Cons.prems(2) Some consider "b \<in> set bs" | "b \<in> set (raw_boxes rs)"
      by (auto simp: raw_boxes_def)
    then show ?thesis
    proof cases
      case 1
      from process_boxes_named [OF mid this] show ?thesis .
    next
      case 2
      from Cons.IH [OF rest this] show ?thesis .
    qed
  qed
qed

text \<open>
  C5. \<open>detect_trash\<close> always returns a list and never an exception: the empty list
  when the model is not loaded, and the empty list when the \<open>try\<close> block raises, which it
  does when the model call raises and when a box has a class id without a name.
\<close>

theorem detect_trash_total:
  "(\<exists>ds. detect_trash mdl frame = Inr ds)
   \<and> detect_trash None frame = Inr []
   \<and> (\<forall>m e. detect_body m frame = Inl e \<longrightarrow> detect_trash (Some m) frame = Inr [])
   \<and> (\<forall>m e. infer m frame = Inl e \<longrightarrow> detect_body m frame = Inl e)
   \<and> (\<forall>m rs b. infer m frame = Inr rs \<and> b \<in> set (raw_boxes rs) \<and> box_name (names m) b = None
         \<longrightarrow> (\<exists>e. detect_body m frame = Inl e))"
proof -
  have total: "\<exists>ds. detect_trash mdl frame = Inr ds"
  proof (cases mdl)
    case None
    then show ?thesis by (simp add: detect_trash_def)
  next
    case (Some m)
    then show ?thesis by (simp add: detect_trash_Some)
  qed
  have unloaded: "detect_trash None frame = Inr []"
    by (simp add: detect_trash_def)
  have caught: "detect_trash (Some m) frame = Inr []" if "detect_body m frame = Inl e" for m e
    using that by (simp add: detect_trash_Some)
  have raised: "detect_body m frame = Inl e" if "infer m frame = Inl e" for m e
    using that by (simp add: detect_body_def)
  have missing: "\<exists>e. detect_body m frame = Inl e"
    if "infer m frame = Inr rs" "b \<in> set (raw_boxes rs)" "box_name (names m) b = None" for m rs b
  proof (cases "detect_body m frame")
    case (Inl e)
    then show ?thesis by blast
  next
    case (Inr ds)
    with that(1) have "process_results (names m) rs [] = Inr ds"
      by (simp add: detect_body_def)
    from process_results_named [OF this that(2)] that(3) show ?thesis
      by simp
  qed
  from total unloaded caught raised missing show ?thesis by blast
qed

text \<open>On a model whose call raises, on one with a nameless class id, and with no model.\<close>

theorem detect_trash_total_witness:
  "detect_body raising_model () = Inl RuntimeError
   \<and> detect_trash (Some raising_model) () = Inr []
   \<and> detect_trash (Some nameless_model) () = Inr []
   \<and> detect_trash (None :: unit yolo option) () = Inr []"
proof -
  note fact = detect_trash_total [of "Some raising_model" "()"]
  have r: "infer raising_model () = Inl RuntimeError"
    by (simp add: raising_model_def)
  from fact r have body: "detect_body raising_model () = Inl RuntimeError"
    by blast
  from fact body have caught: "detect_trash (Some raising_model) () = Inr []"
    by blast
  define b where "b = \<lparr>xyxy = (0, 0, 1, 1), conf = 0.8, cls = 7\<rparr>"
  have run: "infer nameless_model () = Inr [\<lparr>boxes = Some [bottle_box, b]\<rparr>]"
    by (simp add: nameless_model_def b_def)
  have mem: "b \<in> set (raw_boxes [\<lparr>boxes = Some [bottle_box, b]\<rparr>])"
    by (simp add: raw_boxes_def)
  have nameless: "box_name (names nameless_model) b = None"
    by (simp add: nameless_model_def b_def box_name_def lookup_name_def int_of_float_def
          example_names_def)
  from fact run mem nameless obtain e where "detect_body nameless_model () = Inl e"
    by blast
  with fact have lost: "detect_trash (Some nameless_model) () = Inr []"
    by blast
  from fact have "detect_trash (None :: unit yolo option) () = Inr []"
    by blast
  with body caught lost show ?thesis by simp
qed

section \<open>The detector adapter: the food label and the fields carried over\<close>

lemma food_examples:
  "\<not> contains ''bottle'' (lower ''banana'')" "\<not> contains ''cup'' (lower ''banana'')"
  "\<not> contains ''can'' (lower ''banana'')" "\<not> contains ''bag'' (lower ''banana'')"
  "\<not> contains ''cigarette'' (lower ''banana'')" "\<not> contains ''trash'' (lower ''banana'')"
  "\<not> contains ''garbage'' (lower ''banana'')" "title ''banana'' = ''Banana''"
  by code_simp+

text \<open>
  C7. For a class name whose lowercased form matches none of the bottle, cup, can, bag,
  cigarette, trash and garbage checks, the label is "Food Waste: " followed by the
  title-cased class name exactly when the lowercased name contains one of "banana",
  "apple", "orange", "sandwich", "pizza", and "Potential Litter: " followed by the
  title-cased class name exactly when it contains none. A box of class "banana" with
  confidence 0.5 is admitted with the label "Food Waste: Banana".
\<close>

theorem food_waste_label:
  assumes "\<not> contains ''bottle'' (lower n)" and "\<not> contains ''cup'' (lower n)"
    and "\<not> contains ''can'' (lower n)" and "\<not> contains ''bag'' (lower n)"
    and "\<not> contains ''cigarette'' (lower n)" and "\<not> contains ''trash'' (lower n)"
    and "\<not> contains ''garbage'' (lower n)"
  shows "(trash_type n = ''Food Waste: '' @ title n \<longleftrightarrow>
            contains ''banana'' (lower n) \<or> contains ''apple'' (lower n) \<or>
            contains ''orange'' (lower n) \<or> contains ''sandwich'' (lower n) \<or>
            contains ''pizza'' (lower n))
       \<and> (trash_type n = ''Potential Litter: '' @ title n \<longleftrightarrow>
            \<not> (contains ''banana'' (lower n) \<or> contains ''apple'' (lower n) \<or>
               contains ''orange'' (lower n) \<or> contains ''sandwich'' (lower n) \<or>
               contains ''pizza'' (lower n)))
       \<and> (\<forall>ns b. lookup_name ns (int_of_float (cls b)) = Inr ''banana'' \<and> conf b = 0.5 \<longrightarrow>
            (\<exists>d. process_box ns b = Inr (Some d) \<and> class_name d = ''Food Waste: Banana''
                 \<and> original_class d = ''banana''))"
proof -
  have label: "trash_type n =
      (if contains ''banana'' (lower n) \<or> contains ''apple'' (lower n) \<or>
          contains ''orange'' (lower n) \<or> contains ''sandwich'' (lower n) \<or>
          contains ''pizza'' (lower n)
       then ''Food Waste: '' @ title n else ''Potential Litter: '' @ title n)"
    using assms by (simp add: trash_type_def food_names_def)
  have banana: "\<exists>d. process_box ns b = Inr (Some d) \<and> class_name d = ''Food Waste: Banana''
      \<and> original_class d = ''banana''"
    if "lookup_name ns (int_of_float (cls b)) = Inr ''banana''" "conf b = 0.5" for ns b
  proof -
    from that(1) have name: "box_name ns b = Some ''banana''"
      by (simp add: box_name_def)
    with that(2) have adm: "admitted ns b"
      by (simp add: admitted_def admission_examples)
    from name have "process_box ns b = Inr (Some (emit ns b))"
      using process_box_known [of ns b] adm by simp
    moreover have "class_name (emit ns b) = ''Food Waste: Banana''"
      "original_class (emit ns b) = ''banana''"
      by (cases "xyxy b"; simp add: emit_def name trash_type_examples)+
    ultimately show ?thesis by blast
  qed
  from label banana show ?thesis by simp
qed

text \<open>On the class name "banana" and the banana box of the example.\<close>

theorem food_waste_label_witness:
  "trash_type ''banana'' = ''Food Waste: Banana''
   \<and> (\<exists>d. process_box (Some example_names) banana_box = Inr (Some d)
          \<and> class_name d = ''Food Waste: Banana'' \<and> original_class d = ''banana'')"
proof -
  note fact = food_waste_label [of "''banana''", OF food_examples(1-7)]
  have food: "contains ''banana'' (lower ''banana'')"
    by code_simp
  from fact food have "trash_type ''banana'' = ''Food Waste: '' @ title ''banana''"
    by blast
  then have label: "trash_type ''banana'' = ''Food Waste: Banana''"
    by (simp add: food_examples(8))
  have "lookup_name (Some example_names) (int_of_float (cls banana_box)) = Inr ''banana''"
    "conf banana_box = 0.5"
    by (simp_all add: lookup_name_def int_of_float_def example_names_def banana_box_def)
  with fact have "\<exists>d. process_box (Some example_names) banana_box = Inr (Some d)
      \<and> class_name d = ''Food Waste: Banana'' \<and> original_class d = ''banana''"
    by blast
  with label show ?thesis by simp
qed

text \<open>
  C10. Every detection that \<open>detect_trash\<close> returns comes from a raw box of the model
  call: its bbox is the four coordinates of the box, its confidence the box's confidence,
  its class id the integer of the box's class, its original class the model's name for
  that id; only the class name is derived, from the original class.
\<close>

theorem field_pass_through:
  assumes "detect_trash mdl frame = Inr ds" and "d \<in> set ds"
  shows "\<exists>m rs b. mdl = Some m \<and> infer m frame = Inr rs \<and> b \<in> set (raw_boxes rs)
           \<and> bbox d = (case xyxy b of (x1, y1, x2, y2) \<Rightarrow> [x1, y1, x2, y2])
           \<and> confidence d = conf b
           \<and> class_id d = int_of_float (cls b)
           \<and> lookup_name (names m) (class_id d) = Inr (original_class d)
           \<and> class_name d = trash_type (original_class d)"
proof -
  from assms obtain m where m: "mdl = Some m"
    by (cases mdl) (auto simp: detect_trash_def)
  with assms have body: "detect_body m frame = Inr ds"
    by (cases "detect_body m frame") (auto simp: detect_trash_Some)
  from detect_body_Inr [OF body] obtain rs where
    rs: "infer m frame = Inr rs"
    and ds: "ds = map (emit (names m)) (filter (admitted (names m)) (raw_boxes rs))"
    by blast
  from ds assms(2) obtain b where
    b: "b \<in> set (raw_boxes rs)" "admitted (names m) b" "d = emit (names m) b"
    by auto
  from b(2) obtain n where n: "box_name (names m) b = Some n"
    by (auto simp: admitted_def split: option.splits)
  then have look: "lookup_name (names m) (int_of_float (cls b)) = Inr n"
    by (auto simp: box_name_def split: sum.splits)
  obtain x1 y1 x2 y2 where xy: "xyxy b = (x1, y1, x2, y2)"
    by (cases "xyxy b") auto
  from b(3) n xy look have
    "bbox d = (case xyxy b of (x1, y1, x2, y2) \<Rightarrow> [x1, y1, x2, y2])"
    "confidence d = conf b" "class_id d = int_of_float (cls b)"
    "lookup_name (names m) (class_id d) = Inr (original_class d)"
    "class_name d = trash_type (original_class d)"
    by (simp_all add: emit_def)
  with m rs b(1) show ?thesis by blast
qed

text \<open>On the banana detection of the example model.\<close>

theorem field_pass_through_witness:
  "\<exists>b. b \<in> set (raw_boxes example_results)
       \<and> bbox banana_detection = (case xyxy b of (x1, y1, x2, y2) \<Rightarrow> [x1, y1, x2, y2])
       \<and> confidence banana_detection = conf b
       \<and> class_id banana_detection = int_of_float (cls b)
       \<and> lookup_name (Some example_names) 46 = Inr ''banana''
       \<and> class_name banana_detection = trash_type ''banana''"
proof -
  have run: "infer example_model () = Inr example_results"
    and ns: "names example_model = Some example_names"
    by (simp_all add: example_model_def)
  have out: "detect_trash (Some example_model) () = Inr [bottle_detection, banana_detection]"
    using detect_body_known [OF run example_known]
    by (simp add: detect_trash_Some ns raw_boxes_example admitted_examples emit_examples)
  have mem: "banana_detection \<in> set [bottle_detection, banana_detection]"
    by simp
  from field_pass_through [OF out mem] obtain m rs b where
    "Some example_model = Some m" "infer m () = Inr rs" "b \<in> set (raw_boxes rs)"
    "bbox banana_detection = (case xyxy b of (x1, y1, x2, y2) \<Rightarrow> [x1, y1, x2, y2])"
    "confidence banana_detection = conf b"
    "class_id banana_detection = int_of_float (cls b)"
    "lookup_name (names m) (class_id banana_detection) = Inr (original_class banana_detection)"
    "class_name banana_detection = trash_type (original_class banana_detection)"
    by blast
  with run ns show ?thesis
    by (auto simp: banana_detection_def)
qed

section \<open>The frame decoder and the replies\<close>

lemma split_no_sep: "sep \<notin> set s \<Longrightarrow> split sep s = [s]"
  by (induction s) auto

lemma try_except_Inl: "try_except (Inl e) h = h e"
  by (simp add: try_except_def)

lemma try_except_Inr: "try_except (Inr v) h = Inr v"
  by (simp add: try_except_def)

lemma preprocess_frame_cases:
  "preprocess_frame env fd =
     Inr (case preprocess_body env fd of Inl e \<Rightarrow> None | Inr frame \<Rightarrow> Some frame)"
  by (cases "preprocess_body env fd") (simp_all add: preprocess_frame_def try_except_def)

lemma response_dict:
  "response (JObj kvs) ds =
     Inr (JObj [(''detections'', JArr (map detection_json ds)),
                (''timestamp'', field_or (JObj kvs) ''timestamp'' JNull),
                (''frame_count'', field_or (JObj kvs) ''frame_count'' (JInt 0))])"
  by (simp add: response_def field_or_def split: option.splits)

lemma getitem_Inr_dict: "getitem v key = Inr x \<Longrightarrow> \<exists>kvs. v = JObj kvs"
  by (cases v) simp_all

lemma detect_trash_returns: "\<exists>ds. detect_trash mdl frame = Inr ds"
proof (cases mdl)
  case None
  then show ?thesis by (simp add: detect_trash_def)
next
  case (Some m)
  then show ?thesis by (simp add: detect_trash_Some)
qed

lemma reply_undecoded:
  assumes "json_loads env data = Inr fi" and "getitem fi ''frame'' = Inr fd"
    and "preprocess_frame env fd = Inr None"
  shows "reply env data = Inr error_response"
  using assms by (simp add: reply_def)

lemma reply_decoded:
  assumes "json_loads env data = Inr fi" and "getitem fi ''frame'' = Inr fd"
    and "preprocess_frame env fd = Inr (Some frame)"
  shows "\<exists>ds. detect_trash (model env) frame = Inr ds \<and>
    reply env data =
      Inr (JObj [(''detections'', JArr (map detection_json ds)),
                 (''timestamp'', field_or fi ''timestamp'' JNull),
                 (''frame_count'', field_or fi ''frame_count'' (JInt 0))])"
proof -
  from getitem_Inr_dict [OF assms(2)] obtain kvs where fi: "fi = JObj kvs"
    by blast
  from detect_trash_returns [of "model env" frame]
  obtain ds where ds: "detect_trash (model env) frame = Inr ds" ..
  with assms fi show ?thesis
    by (simp add: reply_def response_dict)
qed

lemma reply_unparsed: "json_loads env data = Inl e \<Longrightarrow> reply env data = Inl e"
  by (simp add: reply_def)

lemma reply_frameless:
  "json_loads env data = Inr fi \<Longrightarrow> getitem fi ''frame'' = Inl e \<Longrightarrow> reply env data = Inl e"
  by (simp add: reply_def)

lemma loop_body_sent:
  "incoming t = Inr data \<Longrightarrow> reply env data = Inr msg \<Longrightarrow> send_raises t = None \<Longrightarrow>
   loop_body env t = ([Received data, Sent msg], None)"
  by (simp add: loop_body_def)

lemma loop_body_raised:
  "incoming t = Inr data \<Longrightarrow> reply env data = Inl e \<Longrightarrow>
   loop_body env t = ([Received data], Some e)"
  by (simp add: loop_body_def)

lemma session_loop_next:
  "loop_body env t = (acts, None) \<Longrightarrow>
   session_loop env (t # ts) trace = session_loop env ts (trace @ acts)"
  by simp

lemma session_loop_stop:
  "loop_body env t = (acts, Some e) \<Longrightarrow> session_loop env (t # ts) trace = (trace @ acts, Some e)"
  by simp

text \<open>
  C4. \<open>preprocess_frame\<close> always returns and never raises; whenever its \<open>try\<close> block
  raises it returns \<open>None\<close>, and the block raises on a payload without a comma, on a
  payload that does not base64-decode, and on bytes that do not open as an image. On a
  turn whose frame decodes to \<open>None\<close> the session sends exactly the error message, a dict
  with the error text and an empty detection list, and goes on to the next turn.
\<close>

theorem decode_failure_reply:
  "(\<exists>r. preprocess_frame env fd = Inr r)
   \<and> (\<forall>e. preprocess_body env fd = Inl e \<longrightarrow> preprocess_frame env fd = Inr None)
   \<and> (\<forall>s. fd = JStr s \<and> CHR '','' \<notin> set s \<longrightarrow> preprocess_body env fd = Inl IndexError)
   \<and> (\<forall>s payload e. fd = JStr s \<and> index1 (split CHR '','' s) = Inr payload
          \<and> b64decode env payload = Inl e \<longrightarrow> preprocess_body env fd = Inl e)
   \<and> (\<forall>s payload image_data e. fd = JStr s \<and> index1 (split CHR '','' s) = Inr payload
          \<and> b64decode env payload = Inr image_data \<and> image_open env image_data = Inl e
          \<longrightarrow> preprocess_body env fd = Inl e)
   \<and> (\<forall>t ts trace data fi.
          incoming t = Inr data \<and> json_loads env data = Inr fi \<and> getitem fi ''frame'' = Inr fd
          \<and> preprocess_frame env fd = Inr None \<and> send_raises t = None
          \<longrightarrow> loop_body env t = ([Received data, Sent error_response], None)
              \<and> session_loop env (t # ts) trace =
                  session_loop env ts (trace @ [Received data, Sent error_response]))
   \<and> error_response =
       JObj [(''error'', JStr ''Failed to process frame''), (''detections'', JArr [])]"
proof -
  have total: "\<exists>r. preprocess_frame env fd = Inr r"
    by (simp add: preprocess_frame_cases)
  have none: "preprocess_frame env fd = Inr None" if "preprocess_body env fd = Inl e" for e
    using that by (simp add: preprocess_frame_cases)
  have comma: "preprocess_body env fd = Inl IndexError"
    if "fd = JStr s" "CHR '','' \<notin> set s" for s
    using that by (simp add: preprocess_body_def split_no_sep index1_def)
  have b64: "preprocess_body env fd = Inl e"
    if "fd = JStr s" "index1 (split CHR '','' s) = Inr payload" "b64decode env payload = Inl e"
    for s payload e
    using that by (simp add: preprocess_body_def)
  have img: "preprocess_body env fd = Inl e"
    if "fd = JStr s" "index1 (split CHR '','' s) = Inr payload"
      "b64decode env payload = Inr image_data" "image_open env image_data = Inl e"
    for s payload image_data e
    using that by (simp add: preprocess_body_def)
  have turn: "loop_body env t = ([Received data, Sent error_response], None)
      \<and> session_loop env (t # ts) trace =
          session_loop env ts (trace @ [Received data, Sent error_response])"
    if "incoming t = Inr data" "json_loads env data = Inr fi" "getitem fi ''frame'' = Inr fd"
      "preprocess_frame env fd = Inr None" "send_raises t = None"
    for t ts trace data fi
  proof -
    from reply_undecoded [OF that(2,3,4)] have "reply env data = Inr error_response" .
    from loop_body_sent [OF that(1) this that(5)]
    have body: "loop_body env t = ([Received data, Sent error_response], None)" .
    from body session_loop_next [OF body] show ?thesis by simp
  qed
  have msg: "error_response =
      JObj [(''error'', JStr ''Failed to process frame''), (''detections'', JArr [])]"
    by (simp add: error_response_def)
  from total none comma b64 img turn msg show ?thesis
    by blast
qed

section \<open>The session loop on decodable frames\<close>

lemma decodable_parts:
  assumes "decodable env t"
  obtains data fi fd frame where
    "incoming t = Inr data" "json_loads env data = Inr fi" "getitem fi ''frame'' = Inr fd"
    "preprocess_frame env fd = Inr (Some frame)" "send_raises t = None"
  using assms
  by (auto simp: decodable_def split: sum.splits option.splits)

lemma decodable_reply:
  assumes "decodable env t"
  shows "\<exists>ds. reply env (text_of t) =
      Inr (JObj [(''detections'', JArr ds),
                 (''timestamp'', field_or (frame_info_of env t) ''timestamp'' JNull),
                 (''frame_count'', field_or (frame_info_of env t) ''frame_count'' (JInt 0))])"
proof -
  from assms obtain data fi fd frame where
    p: "incoming t = Inr data" "json_loads env data = Inr fi" "getitem fi ''frame'' = Inr fd"
      "preprocess_frame env fd = Inr (Some frame)"
    by (rule decodable_parts)
  from p(1,2) have "text_of t = data" "frame_info_of env t = fi"
    by (simp_all add: text_of_def frame_info_of_def)
  with reply_decoded [OF p(2,3,4)] show ?thesis
    by auto
qed

lemma decodable_body:
  assumes "decodable env t"
  shows "loop_body env t = ([Received (text_of t), Sent (result_of env t)], None)"
proof -
  from assms obtain data fi fd frame where
    p: "incoming t = Inr data" "send_raises t = None"
    by (rule decodable_parts)
  from p(1) have data: "text_of t = data"
    by (simp add: text_of_def)
  from decodable_reply [OF assms] obtain msg where msg: "reply env (text_of t) = Inr msg"
    by blast
  then have "result_of env t = msg"
    by (simp add: result_of_def)
  with loop_body_sent [OF p(1) _ p(2)] msg data show ?thesis
    by simp
qed

lemma sent_messages_append: "sent_messages (xs @ ys) = sent_messages xs @ sent_messages ys"
  by (induction xs rule: sent_messages.induct) simp_all

lemma sent_messages_exchanges: "sent_messages (exchanges env turns) = map (result_of env) turns"
  by (induction turns) (simp_all add: exchanges_def)

lemma session_loop_decodable:
  "\<forall>t\<in>set turns. decodable env t \<Longrightarrow>
   session_loop env (turns @ later) trace = session_loop env later (trace @ exchanges env turns)"
proof (induction turns arbitrary: trace)
  case Nil
  then show ?case by (simp add: exchanges_def)
next
  case (Cons t ts)
  then have "decodable env t" and rest: "\<forall>t\<in>set ts. decodable env t"
    by simp_all
  from decodable_body [OF this(1)]
  have "session_loop env ((t # ts) @ later) trace =
      session_loop env (ts @ later) (trace @ [Received (text_of t), Sent (result_of env t)])"
    by simp
  also from Cons.IH [OF rest]
  have "\<dots> = session_loop env later
      ((trace @ [Received (text_of t), Sent (result_of env t)]) @ exchanges env ts)" .
  finally show ?case
    by (simp add: exchanges_def)
qed

text \<open>
  C6. On N decodable frame messages the session does, in this order, receive the first
  text, send its result, receive the second text, send its result, and so on: N results,
  in the order of the messages, each sent before the next message is read, and then it
  waits for the next message. Each result carries the message's frame count (0 when the
  field is absent), its timestamp (null when absent) and a detection list.
\<close>

theorem sequential_results:
  assumes "\<forall>t\<in>set turns. decodable env t"
  shows "session_loop env turns [] = (exchanges env turns, None)
       \<and> (\<forall>later. session_loop env (turns @ later) [] = session_loop env later (exchanges env turns))
       \<and> sent_messages (exchanges env turns) = map (result_of env) turns
       \<and> length (sent_messages (exchanges env turns)) = length turns
       \<and> (\<forall>t\<in>set turns.
             getitem (result_of env t) ''frame_count'' =
               Inr (field_or (frame_info_of env t) ''frame_count'' (JInt 0))
           \<and> getitem (result_of env t) ''timestamp'' =
               Inr (field_or (frame_info_of env t) ''timestamp'' JNull)
           \<and> (\<exists>ds. getitem (result_of env t) ''detections'' = Inr (JArr ds)))"
proof -
  have run: "session_loop env (turns @ later) [] = session_loop env later (exchanges env turns)"
    for later
    using session_loop_decodable [OF assms, of later "[]"] by simp
  from run [of "[]"] have whole: "session_loop env turns [] = (exchanges env turns, None)"
    by simp
  have fields: "getitem (result_of env t) ''frame_count'' =
        Inr (field_or (frame_info_of env t) ''frame_count'' (JInt 0))
      \<and> getitem (result_of env t) ''timestamp'' =
        Inr (field_or (frame_info_of env t) ''timestamp'' JNull)
      \<and> (\<exists>ds. getitem (result_of env t) ''detections'' = Inr (JArr ds))"
    if "t \<in> set turns" for t
  proof -
    from that assms have "decodable env t" by blast
    from decodable_reply [OF this] obtain ds where
      "result_of env t =
         JObj [(''detections'', JArr ds),
               (''timestamp'', field_or (frame_info_of env t) ''timestamp'' JNull),
               (''frame_count'', field_or (frame_info_of env t) ''frame_count'' (JInt 0))]"
      by (auto simp: result_of_def)
    then show ?thesis by simp
  qed
  from whole run fields show ?thesis
    by (simp add: sent_messages_exchanges)
qed

section \<open>The registry\<close>

lemma remove1_once:
  "count_list xs w = 1 \<Longrightarrow> remove1 w xs = filter (\<lambda>x. x \<noteq> w) xs"
proof (induction xs)
  case Nil
  then show ?case by simp
next
  case (Cons x xs)
  show ?case
  proof (cases "x = w")
    case True
    with Cons.prems have "count_list xs w = 0" by simp
    then have "w \<notin> set xs" by (simp add: count_list_0_iff)
    then have "filter (\<lambda>x. x \<noteq> w) xs = xs" by (induction xs) auto
    with True show ?thesis by simp
  next
    case False
    with Cons show ?thesis by simp
  qed
qed

lemma apply_op_other:
  assumes "websocket_of op \<noteq> w"
  shows "filter (\<lambda>x. x \<noteq> w) (apply_op xs op) = apply_op (filter (\<lambda>x. x \<noteq> w) xs) op"
    and "count_list (apply_op xs op) w = count_list xs w"
proof -
  show "filter (\<lambda>x. x \<noteq> w) (apply_op xs op) = apply_op (filter (\<lambda>x. x \<noteq> w) xs) op"
  proof (cases op)
    case (Connect v)
    with assms show ?thesis by (simp add: connect_def)
  next
    case (Disconnect v)
    with assms have "v \<noteq> w" by simp
    with Disconnect show ?thesis
      by (simp add: disconnect_def filter_remove1)
  qed
  show "count_list (apply_op xs op) w = count_list xs w"
  proof (cases op)
    case (Connect v)
    with assms show ?thesis by (simp add: connect_def)
  next
    case (Disconnect v)
    with assms have "v \<noteq> w" by simp
    with Disconnect show ?thesis
      by (simp add: disconnect_def)
  qed
qed

lemma others_keep:
  assumes "\<forall>op\<in>set others. websocket_of op \<noteq> w"
  shows "filter (\<lambda>x. x \<noteq> w) (foldl apply_op xs others) =
           foldl apply_op (filter (\<lambda>x. x \<noteq> w) xs) others
       \<and> count_list (foldl apply_op xs others) w = count_list xs w"
  using assms
proof (induction others arbitrary: xs)
  case Nil
  then show ?case by simp
next
  case (Cons op ops)
  then have op: "websocket_of op \<noteq> w" and ops: "\<forall>op\<in>set ops. websocket_of op \<noteq> w"
    by simp_all
  from Cons.IH [OF ops, of "apply_op xs op"] apply_op_other [OF op, of xs]
  show ?case by simp
qed

lemma session_registry:
  assumes "w \<notin> set active" and "\<forall>op\<in>set others. websocket_of op \<noteq> w"
  shows "count_list (foldl apply_op (active @ [w]) others) w = 1"
    and "disconnect w (foldl apply_op (active @ [w]) others) = Inr (foldl apply_op active others)"
    and "w \<notin> set (foldl apply_op active others)"
proof -
  from assms(1) have none: "count_list active w = 0" and same: "filter (\<lambda>x. x \<noteq> w) active = active"
    by (auto simp: count_list_0_iff filter_id_conv)
  from others_keep [OF assms(2), of "active @ [w]"] none same
  have kept: "filter (\<lambda>x. x \<noteq> w) (foldl apply_op (active @ [w]) others) = foldl apply_op active others"
    and once: "count_list (foldl apply_op (active @ [w]) others) w = 1"
    by simp_all
  show "count_list (foldl apply_op (active @ [w]) others) w = 1"
    by (rule once)
  from once have "w \<in> set (foldl apply_op (active @ [w]) others)"
    using count_list_0_iff [of "foldl apply_op (active @ [w]) others" w] by auto
  with remove1_once [OF once] kept
  show "disconnect w (foldl apply_op (active @ [w]) others) = Inr (foldl apply_op active others)"
    by (simp add: disconnect_def)
  have "w \<notin> set (filter (\<lambda>x. x \<noteq> w) (foldl apply_op (active @ [w]) others))"
    by simp
  with kept show "w \<notin> set (foldl apply_op active others)"
    by simp
qed

lemma websocket_detect_exit:
  assumes "session_loop env turns [] = (trace, Some e)"
    and "w \<notin> set active" and "\<forall>op\<in>set others. websocket_of op \<noteq> w"
  shows "websocket_detect env None w turns others active =
           (Returned, trace, foldl apply_op active others)"
  using assms(1) session_registry(2) [OF assms(2,3)]
  by (simp add: websocket_detect_def connect_def handler_def)

lemma websocket_detect_waiting:
  assumes "session_loop env turns [] = (trace, None)"
  shows "websocket_detect env None w turns others active =
           (Waiting, trace, foldl apply_op (active @ [w]) others)"
  using assms by (simp add: websocket_detect_def connect_def)

text \<open>
  C9. A websocket that is not yet in the registry is appended once by \<open>connect\<close> and
  stays in it once while its loop runs, whatever other sessions do with their own
  websockets. When the loop ends by an exception (the client's disconnect or any other),
  the handler removes it and returns: the registry is then what the other sessions made
  of it, and the websocket is not a member.
\<close>

theorem registry_membership:
  assumes "w \<notin> set active" and "\<forall>op\<in>set others. websocket_of op \<noteq> w"
  shows "connect None w active = Inr (active @ [w])
       \<and> count_list (active @ [w]) w = 1
       \<and> count_list (foldl apply_op (active @ [w]) others) w = 1
       \<and> (\<forall>trace e. session_loop env turns [] = (trace, Some e) \<longrightarrow>
             websocket_detect env None w turns others active =
               (Returned, trace, foldl apply_op active others))
       \<and> w \<notin> set (foldl apply_op active others)
       \<and> (\<forall>trace. session_loop env turns [] = (trace, None) \<longrightarrow>
             websocket_detect env None w turns others active =
               (Waiting, trace, foldl apply_op (active @ [w]) others))"
proof -
  from assms(1) have "count_list (active @ [w]) w = 1"
    by (simp add: count_list_0_iff)
  moreover have "connect None w active = Inr (active @ [w])"
    by (simp add: connect_def)
  moreover note session_registry(1,3) [OF assms]
  moreover have "websocket_detect env None w turns others active =
      (Returned, trace, foldl apply_op active others)"
    if "session_loop env turns [] = (trace, Some e)" for trace e
    using websocket_detect_exit [OF that assms] .
  moreover have "websocket_detect env None w turns others active =
      (Waiting, trace, foldl apply_op (active @ [w]) others)"
    if "session_loop env turns [] = (trace, None)" for trace
    using websocket_detect_waiting [OF that] .
  ultimately show ?thesis by blast
qed

text \<open>
  C3, as the code has it. A text that is not valid JSON, or that parses to a value
  without a "frame" field, raises in the loop: nothing is sent for it, the loop ends
  there without reading a later message, the handler removes the websocket from the
  registry and \<open>websocket_detect\<close> returns.
\<close>

theorem undecodable_text_ends_session:
  assumes "incoming t = Inr data"
    and "json_loads env data = Inl e
         \<or> (\<exists>fi. json_loads env data = Inr fi \<and> getitem fi ''frame'' = Inl e)"
    and "w \<notin> set active" and "\<forall>op\<in>set others. websocket_of op \<noteq> w"
  shows "loop_body env t = ([Received data], Some e)
       \<and> session_loop env (t # ts) trace = (trace @ [Received data], Some e)
       \<and> websocket_detect env None w (t # ts) others active =
           (Returned, [Received data], foldl apply_op active others)
       \<and> w \<notin> set (foldl apply_op active others)"
proof -
  from assms(2) have "reply env data = Inl e"
    by (auto simp: reply_unparsed reply_frameless)
  from loop_body_raised [OF assms(1) this]
  have body: "loop_body env t = ([Received data], Some e)" .
  from session_loop_stop [OF body]
  have stop: "session_loop env (t # ts) trace = (trace @ [Received data], Some e)" for trace .
  from stop [of "[]"] have "session_loop env (t # ts) [] = ([Received data], Some e)"
    by simp
  from websocket_detect_exit [OF this assms(3,4)] body stop session_registry(3) [OF assms(3,4)]
  show ?thesis by simp
qed

section \<open>The readiness endpoints\<close>

text \<open>
  C8. The health query always succeeds, with status "healthy" and \<open>model_loaded\<close> true
  exactly when the model is loaded. The model-info query fails exactly when the model is
  not loaded, and then with status code 503; otherwise it returns status "ready" and the
  class names of the model (none when the model has no \<open>names\<close>).
\<close>

theorem readiness:
  "(\<exists>body. health_check env = Inr body
        \<and> getitem body ''status'' = Inr (JStr ''healthy'')
        \<and> getitem body ''model_loaded'' = Inr (JBool (model env \<noteq> None)))
   \<and> (model_info env = Inl (HTTPException 503 ''Model not loaded'') \<longleftrightarrow> model env = None)
   \<and> ((\<exists>x. model_info env = Inl x) \<longleftrightarrow> model env = None)
   \<and> (\<forall>m. model env = Some m \<longrightarrow>
         (\<exists>body. model_info env = Inr body
            \<and> getitem body ''status'' = Inr (JStr ''ready'')
            \<and> getitem body ''classes'' =
                Inr (JArr (case names m of None \<Rightarrow> [] | Some d \<Rightarrow> map (\<lambda>(i, n). JStr n) d))))"
proof -
  have health: "\<exists>body. health_check env = Inr body
        \<and> getitem body ''status'' = Inr (JStr ''healthy'')
        \<and> getitem body ''model_loaded'' = Inr (JBool (model env \<noteq> None))"
    by (cases "model env") (simp_all add: health_check_def)
  have unloaded: "model_info env = Inl (HTTPException 503 ''Model not loaded'') \<longleftrightarrow> model env = None"
    by (cases "model env") (simp_all add: model_info_def)
  have fails: "(\<exists>x. model_info env = Inl x) \<longleftrightarrow> model env = None"
    by (cases "model env") (simp_all add: model_info_def)
  have ready: "\<exists>body. model_info env = Inr body
            \<and> getitem body ''status'' = Inr (JStr ''ready'')
            \<and> getitem body ''classes'' =
                Inr (JArr (case names m of None \<Rightarrow> [] | Some d \<Rightarrow> map (\<lambda>(i, n). JStr n) d))"
    if "model env = Some m" for m
    using that by (simp add: model_info_def)
  from health unloaded fails ready show ?thesis by blast
qed

section \<open>Evaluation of the example session\<close>

lemma example_loads_values:
  "json_loads example_env full_text =
     Inr (JObj [(''frame'', JStr ''data:image/jpeg;base64,AAAA''),
                (''timestamp'', JInt 17), (''frame_count'', JInt 3)])"
  "json_loads example_env bare_text = Inr (JObj [(''frame'', JStr ''data:image/jpeg;base64,AAAA'')])"
  "json_loads example_env commaless_text = Inr (JObj [(''frame'', JStr ''no comma'')])"
  "json_loads example_env frameless_text = Inr (JObj [(''frame_count'', JInt 4)])"
  "json_loads example_env ''not json'' = Inl JSONDecodeError"
  by (simp_all add: example_env_def example_loads_def full_text_def bare_text_def
        commaless_text_def frameless_text_def)

lemma split_example:
  "split CHR '','' ''data:image/jpeg;base64,AAAA'' = [''data:image/jpeg;base64'', ''AAAA'']"
  by simp

lemma preprocess_examples:
  "preprocess_frame example_env (JStr ''data:image/jpeg;base64,AAAA'') = Inr (Some ())"
  "preprocess_frame example_env (JStr ''no comma'') = Inr None"
  by (simp_all add: preprocess_frame_cases preprocess_body_def index1_def example_env_def)

lemma detect_example:
  "detect_trash (model example_env) () = Inr [bottle_detection, banana_detection]"
proof -
  have run: "infer example_model () = Inr example_results"
    and ns: "names example_model = Some example_names"
    by (simp_all add: example_model_def)
  from detect_body_known [OF run example_known] show ?thesis
    by (simp add: example_env_def detect_trash_Some ns raw_boxes_example admitted_examples
          emit_examples)
qed

lemma reply_examples:
  "reply example_env full_text = Inr full_result"
  "reply example_env bare_text = Inr bare_result"
  "reply example_env commaless_text = Inr error_response"
  "reply example_env frameless_text = Inl KeyError"
  "reply example_env ''not json'' = Inl JSONDecodeError"
  by (simp_all add: reply_def example_loads_values preprocess_examples detect_example
        response_dict field_or_def full_result_def bare_result_def)

lemma decodable_examples:
  "decodable example_env (arriving full_text)" "decodable example_env (arriving bare_text)"
  by (simp_all add: decodable_def arriving_def example_loads_values preprocess_examples)

lemma turn_examples:
  "text_of (arriving s) = s" "incoming (arriving s) = Inr s" "send_raises (arriving s) = None"
  "incoming closing = Inl WebSocketDisconnect"
  by (simp_all add: text_of_def arriving_def closing_def)

lemma result_examples:
  "result_of example_env (arriving full_text) = full_result"
  "result_of example_env (arriving bare_text) = bare_result"
  by (simp_all add: result_of_def turn_examples reply_examples)

section \<open>The session on the examples\<close>

text \<open>A frame payload without a comma, followed by a decodable frame message.\<close>

theorem decode_failure_reply_witness:
  "preprocess_frame example_env (JStr ''no comma'') = Inr None
   \<and> session_loop example_env [arriving commaless_text, arriving full_text] [] =
       ([Received commaless_text,
         Sent (JObj [(''error'', JStr ''Failed to process frame''), (''detections'', JArr [])]),
         Received full_text, Sent full_result], None)"
proof -
  note fact = decode_failure_reply [of example_env "JStr ''no comma''"]
  note caught = fact [THEN conjunct2, THEN conjunct1, rule_format]
  note commaless = fact [THEN conjunct2, THEN conjunct2, THEN conjunct1, rule_format]
  note turn = fact [THEN conjunct2, THEN conjunct2, THEN conjunct2, THEN conjunct2,
    THEN conjunct2, THEN conjunct1, rule_format]
  note msg = fact [THEN conjunct2, THEN conjunct2, THEN conjunct2, THEN conjunct2,
    THEN conjunct2, THEN conjunct2]
  have "preprocess_body example_env (JStr ''no comma'') = Inl IndexError"
    by (rule commaless [of "''no comma''"]) simp
  then have none: "preprocess_frame example_env (JStr ''no comma'') = Inr None"
    by (rule caught)
  have "incoming (arriving commaless_text) = Inr commaless_text
      \<and> json_loads example_env commaless_text = Inr (JObj [(''frame'', JStr ''no comma'')])
      \<and> getitem (JObj [(''frame'', JStr ''no comma'')]) ''frame'' = Inr (JStr ''no comma'')
      \<and> preprocess_frame example_env (JStr ''no comma'') = Inr None
      \<and> send_raises (arriving commaless_text) = None"
    by (simp add: turn_examples example_loads_values none)
  from turn [OF this, of "[arriving full_text]" "[]"]
  have step: "session_loop example_env [arriving commaless_text, arriving full_text] [] =
      session_loop example_env [arriving full_text] [Received commaless_text, Sent error_response]"
    by simp
  have "loop_body example_env (arriving full_text) = ([Received full_text, Sent full_result], None)"
    by (rule loop_body_sent) (simp_all add: turn_examples reply_examples)
  with step have "session_loop example_env [arriving commaless_text, arriving full_text] [] =
      ([Received commaless_text, Sent error_response, Received full_text, Sent full_result], None)"
    by simp
  with none msg show ?thesis by simp
qed

text \<open>Two decodable frame messages, the second without frame count and timestamp.\<close>

theorem sequential_results_witness:
  "session_loop example_env [arriving full_text, arriving bare_text] [] =
     ([Received full_text, Sent full_result, Received bare_text, Sent bare_result], None)
   \<and> getitem full_result ''frame_count'' = Inr (JInt 3)
   \<and> getitem full_result ''timestamp'' = Inr (JInt 17)
   \<and> getitem bare_result ''frame_count'' = Inr (JInt 0)
   \<and> getitem bare_result ''timestamp'' = Inr JNull"
proof -
  have all: "\<forall>t\<in>set [arriving full_text, arriving bare_text]. decodable example_env t"
    by (simp add: decodable_examples)
  from sequential_results [OF all]
  have "session_loop example_env [arriving full_text, arriving bare_text] [] =
      (exchanges example_env [arriving full_text, arriving bare_text], None)"
    by (rule conjunct1)
  then have "session_loop example_env [arriving full_text, arriving bare_text] [] =
      ([Received full_text, Sent full_result, Received bare_text, Sent bare_result], None)"
    by (simp add: exchanges_def turn_examples result_examples)
  then show ?thesis
    by (simp add: full_result_def bare_result_def)
qed

text \<open>
  A text that is not JSON, and a JSON text without a frame field, each followed by a
  decodable frame message: the session sends no error message, it ends.
\<close>

theorem undecodable_text_counterexample:
  "json_loads example_env ''not json'' = Inl JSONDecodeError
   \<and> session_loop example_env [arriving ''not json'', arriving full_text] [] =
       ([Received ''not json''], Some JSONDecodeError)
   \<and> json_loads example_env frameless_text = Inr (JObj [(''frame_count'', JInt 4)])
   \<and> session_loop example_env [arriving frameless_text, arriving full_text] [] =
       ([Received frameless_text], Some KeyError)
   \<and> websocket_detect example_env None (1::nat) [arriving ''not json'', arriving full_text] [] [0] =
       (Returned, [Received ''not json''], [0])
   \<and> session_loop example_env [arriving ''not json'', arriving full_text] [] \<noteq>
       session_loop example_env [arriving full_text] [Received ''not json'', Sent error_response]
   \<and> session_loop example_env [arriving frameless_text, arriving full_text] [] \<noteq>
       session_loop example_env [arriving full_text] [Received frameless_text, Sent error_response]"
proof -
  have b1: "loop_body example_env (arriving ''not json'') = ([Received ''not json''], Some JSONDecodeError)"
    by (rule loop_body_raised) (simp_all add: turn_examples reply_examples)
  have b2: "loop_body example_env (arriving frameless_text) = ([Received frameless_text], Some KeyError)"
    by (rule loop_body_raised) (simp_all add: turn_examples reply_examples)
  from b1 have s1: "session_loop example_env [arriving ''not json'', arriving full_text] [] =
      ([Received ''not json''], Some JSONDecodeError)"
    by simp
  from b2 have s2: "session_loop example_env [arriving frameless_text, arriving full_text] [] =
      ([Received frameless_text], Some KeyError)"
    by simp
  from s1 have "websocket_detect example_env None (1::nat)
      [arriving ''not json'', arriving full_text] [] [0] = (Returned, [Received ''not json''], [0])"
    by (simp add: websocket_detect_def connect_def handler_def disconnect_def)
  moreover
  have "loop_body example_env (arriving full_text) = ([Received full_text, Sent full_result], None)"
    by (rule loop_body_sent) (simp_all add: turn_examples reply_examples)
  then have "snd (session_loop example_env [arriving full_text] trace) = None" for trace
    by simp
  with s1 s2 have
    "session_loop example_env [arriving ''not json'', arriving full_text] [] \<noteq>
       session_loop example_env [arriving full_text] [Received ''not json'', Sent error_response]"
    "session_loop example_env [arriving frameless_text, arriving full_text] [] \<noteq>
       session_loop example_env [arriving full_text] [Received frameless_text, Sent error_response]"
    by (metis option.distinct(1) snd_conv)+
  ultimately show ?thesis
    using s1 s2 example_loads_values(4,5) by simp
qed

text \<open>The JSON text without a frame field, while another session connects.\<close>

theorem undecodable_text_ends_session_witness:
  "session_loop example_env [arriving frameless_text, arriving full_text] [] =
     ([Received frameless_text], Some KeyError)
   \<and> websocket_detect example_env None (1::nat) [arriving frameless_text, arriving full_text]
       [Connect 2] [0] = (Returned, [Received frameless_text], [0, 2])"
proof -
  have frameless: "json_loads example_env frameless_text = Inl KeyError
      \<or> (\<exists>fi. json_loads example_env frameless_text = Inr fi \<and> getitem fi ''frame'' = Inl KeyError)"
    by (simp add: example_loads_values)
  have fresh: "(1::nat) \<notin> set [0]" and others: "\<forall>op\<in>set [Connect (2::nat)]. websocket_of op \<noteq> 1"
    by simp_all
  from undecodable_text_ends_session [OF turn_examples(2) frameless fresh others,
      of "[arriving full_text]" "[]"]
  show ?thesis
    by (simp add: connect_def)
qed

text \<open>A session that the client closes after one frame, and one that still waits.\<close>

theorem registry_membership_witness:
  "websocket_detect example_env None (1::nat) [arriving bare_text, closing]
     [Connect 2, Disconnect 0] [0] =
     (Returned, [Received bare_text, Sent bare_result], [2])
   \<and> websocket_detect example_env None (1::nat) [arriving bare_text]
     [Connect 2, Disconnect 0] [0] =
     (Waiting, [Received bare_text, Sent bare_result], [1, 2])"
proof -
  have fresh: "(1::nat) \<notin> set [0]"
    and others: "\<forall>op\<in>set [Connect (2::nat), Disconnect 0]. websocket_of op \<noteq> 1"
    by simp_all
  have body: "loop_body example_env (arriving bare_text) = ([Received bare_text, Sent bare_result], None)"
    by (rule loop_body_sent) (simp_all add: turn_examples reply_examples)
  have stop: "loop_body example_env closing = ([], Some WebSocketDisconnect)"
    by (simp add: loop_body_def turn_examples)
  from body stop have closed: "session_loop example_env [arriving bare_text, closing] [] =
      ([Received bare_text, Sent bare_result], Some WebSocketDisconnect)"
    by simp
  from body have waiting: "session_loop example_env [arriving bare_text] [] =
      ([Received bare_text, Sent bare_result], None)"
    by simp
  from registry_membership [OF fresh others, of example_env "[arriving bare_text, closing]"] closed
  have "websocket_detect example_env None (1::nat) [arriving bare_text, closing]
      [Connect 2, Disconnect 0] [0] =
      (Returned, [Received bare_text, Sent bare_result], foldl apply_op [0] [Connect 2, Disconnect 0])"
    by blast
  moreover
  from registry_membership [OF fresh others, of example_env "[arriving bare_text]"] waiting
  have "websocket_detect example_env None (1::nat) [arriving bare_text]
      [Connect 2, Disconnect 0] [0] =
      (Waiting, [Received bare_text, Sent bare_result],
       foldl apply_op ([0] @ [1]) [Connect 2, Disconnect 0])"
    by blast
  ultimately show ?thesis
    by (simp add: connect_def disconnect_def)
qed

text \<open>The endpoints with the example model loaded, and with no model.\<close>

theorem readiness_witness:
  "health_check example_env =
     Inr (JObj [(''status'', JStr ''healthy''), (''model_loaded'', JBool True),
                (''device'', JStr ''cpu'')])
   \<and> getitem (JObj [(''status'', JStr ''healthy''), (''model_loaded'', JBool False),
                    (''device'', JStr ''cpu'')]) ''model_loaded'' = Inr (JBool False)
   \<and> health_check unloaded_env =
     Inr (JObj [(''status'', JStr ''healthy''), (''model_loaded'', JBool False),
                (''device'', JStr ''cpu'')])
   \<and> model_info unloaded_env = Inl (HTTPException 503 ''Model not loaded'')
   \<and> (\<exists>body. model_info example_env = Inr body
         \<and> getitem body ''status'' = Inr (JStr ''ready'')
         \<and> getitem body ''classes'' = Inr (JArr [JStr ''bottle'', JStr ''banana'', JStr ''chair'']))"
proof -
  have loaded: "model example_env = Some example_model" and unloaded: "model unloaded_env = None"
    by (simp_all add: example_env_def unloaded_env_def)
  from readiness [of unloaded_env] unloaded
  have down: "model_info unloaded_env = Inl (HTTPException 503 ''Model not loaded'')"
    by blast
  from readiness [of example_env] loaded
  have "\<exists>body. model_info example_env = Inr body
      \<and> getitem body ''status'' = Inr (JStr ''ready'')
      \<and> getitem body ''classes'' =
          Inr (JArr (case names example_model of None \<Rightarrow> [] | Some d \<Rightarrow> map (\<lambda>(i, n). JStr n) d))"
    by blast
  then have up: "\<exists>body. model_info example_env = Inr body
      \<and> getitem body ''status'' = Inr (JStr ''ready'')
      \<and> getitem body ''classes'' = Inr (JArr [JStr ''bottle'', JStr ''banana'', JStr ''chair''])"
    by (simp add: example_model_def example_names_def)
  have "health_check example_env =
      Inr (JObj [(''status'', JStr ''healthy''), (''model_loaded'', JBool True),
                 (''device'', JStr ''cpu'')])"
    "health_check unloaded_env =
      Inr (JObj [(''status'', JStr ''healthy''), (''model_loaded'', JBool False),
                 (''device'', JStr ''cpu'')])"
    by (simp_all add: health_check_def example_env_def unloaded_env_def device_json_def)
  with down up show ?thesis by simp
qed

end
